theory Spec2Isabelle
  imports Main
begin

section \<open>The port scanner of tools/custom\_built/simple\_port\_scanner.go\<close>

text \<open>
  The program is one \<^verbatim>\<open>main\<close> function:
  \<^verbatim>\<open>
  func main() {
      target := "scanme.nmap.org"
      for port := 20; port <= 1024; port++ {
          address := fmt.Sprintf("%s:%d", target, port)
          conn, err := net.DialTimeout("tcp", address, 1*time.Second)
          if err == nil {
              fmt.Printf("Port %d open\n", port)
              conn.Close()
          }
      }
  }
  \<close>
  Everything it does is an effect on the outside world, so the embedding records the
  effects, in program order, as a list of events. The one thing the program reads from
  the world, the result of \<^verbatim>\<open>net.DialTimeout\<close>, is a parameter of the model.
\<close>

subsection \<open>The outside world\<close>

text \<open>
  A \<^verbatim>\<open>net.Conn\<close> is a handle; the model names it by a number. The error values of
  \<^verbatim>\<open>net.DialTimeout\<close> are the ones the specification distinguishes, and a catch-all.
\<close>

type_synonym conn = nat

datatype net_error = Timeout | ConnRefused | NoSuchHost | OtherError string

text \<open>
  The pair \<^verbatim>\<open>(conn, err)\<close> that \<^verbatim>\<open>net.DialTimeout\<close> returns: \<^verbatim>\<open>err == nil\<close> is
  \<open>Connected\<close>, anything else is \<open>Failed\<close>.
\<close>

datatype dial_result = Connected conn | Failed net_error

text \<open>
  \<^verbatim>\<open>net.DialTimeout(network, address, timeout)\<close>, with the \<^verbatim>\<open>time.Duration\<close> in
  nanoseconds as Go has it. It is a function of its arguments here: a run never dials
  an address twice (see \<open>distinct_addresses\<close> below), so within a run this is as
  general as a result that changes from call to call; two runs may each have their own.
  The function is total: a call returns, with a connection or with an error.
\<close>

type_synonym network = "string \<Rightarrow> string \<Rightarrow> int \<Rightarrow> dial_result"

text \<open>
  What a process of this kind can do to the world. The program below only ever dials,
  writes to standard output and closes; reading from or writing to a connection and
  writing to standard error are in the alphabet so that their absence from a trace says
  something.
\<close>

datatype event =
    DialTimeout string string int
  | Stdout string
  | Close conn
  | ConnRead conn
  | ConnWrite conn string
  | Stderr string

text \<open>
  A finished run: the events in order, and the exit status of the process.
\<close>

record process =
  trace :: "event list"
  exit_status :: int

subsection \<open>Formatting\<close>

text \<open>
  The verb \<^verbatim>\<open>%d\<close> of package \<^verbatim>\<open>fmt\<close> on an \<^verbatim>\<open>int\<close>: decimal digits, most
  significant first, with a minus sign for a negative number.
\<close>

definition digit_char :: "nat \<Rightarrow> char" where
  "digit_char d = ''0123456789'' ! d"

fun digits :: "nat \<Rightarrow> string" where
  "digits n = (if n < 10 then [digit_char n] else digits (n div 10) @ [digit_char (n mod 10)])"

declare digits.simps [simp del]

definition fmt_d :: "int \<Rightarrow> string" where
  "fmt_d i = (if i < 0 then CHR ''-'' # digits (nat (- i)) else digits (nat i))"

text \<open>\<^verbatim>\<open>fmt.Sprintf("%s:%d", target, port)\<close>\<close>

definition sprintf_address :: "string \<Rightarrow> int \<Rightarrow> string" where
  "sprintf_address target port = target @ '':'' @ fmt_d port"

text \<open>The text that \<^verbatim>\<open>fmt.Printf("Port %d open\n", port)\<close> writes.\<close>

definition printf_port_open :: "int \<Rightarrow> string" where
  "printf_port_open port = ''Port '' @ fmt_d port @ '' open'' @ [CHR 0x0A]"

text \<open>\<^verbatim>\<open>time.Second\<close> is \<open>10\<^sup>9\<close> nanoseconds.\<close>

definition Second :: int where
  "Second = 1000000000"

subsection \<open>The loop\<close>

text \<open>
  The body of the \<^verbatim>\<open>for\<close> loop for one value of \<^verbatim>\<open>port\<close>, as a function on the
  trace so far. The value of \<^verbatim>\<open>err\<close> is looked at only to compare it with \<^verbatim>\<open>nil\<close>.
  The program discards what \<^verbatim>\<open>fmt.Printf\<close> and \<^verbatim>\<open>conn.Close\<close> return, so the model
  has no result for them; \<^verbatim>\<open>os.Stdout\<close> is not buffered, so the write happens at the
  call.
\<close>

definition scan_port :: "network \<Rightarrow> string \<Rightarrow> int \<Rightarrow> int \<Rightarrow> event list \<Rightarrow> event list" where
  "scan_port dial target timeout port tr =
     (let address = sprintf_address target port in
      case dial ''tcp'' address timeout of
        Connected c \<Rightarrow>
          tr @ [DialTimeout ''tcp'' address timeout, Stdout (printf_port_open port), Close c]
      | Failed err \<Rightarrow>
          tr @ [DialTimeout ''tcp'' address timeout])"

text \<open>
  The loop \<^verbatim>\<open>for ...; port <= hi; port++\<close>, entered with the current value of
  \<^verbatim>\<open>port\<close>. Go's \<^verbatim>\<open>int\<close> has at least 32 bits, and \<^verbatim>\<open>port\<close> stays below 1026 in the
  program, so \<^verbatim>\<open>port++\<close> never wraps there. The bound is a parameter so that a part
  of the program's loop (the ports below or above a given one) can be named; it is only
  ever a port of 19..1024, where the unbounded \<open>int\<close> of the model and Go's agree.
\<close>

function scan_loop :: "network \<Rightarrow> string \<Rightarrow> int \<Rightarrow> int \<Rightarrow> int \<Rightarrow> event list \<Rightarrow> event list" where
  "scan_loop dial target hi timeout port tr =
     (if port \<le> hi
      then scan_loop dial target hi timeout (port + 1) (scan_port dial target timeout port tr)
      else tr)"
  by pat_completeness auto
termination
  by (relation "measure (\<lambda>(dial, target, hi, timeout, port, tr). nat (hi + 1 - port))") auto

declare scan_loop.simps [simp del]

text \<open>
  The body of \<^verbatim>\<open>main\<close> with its literals (target, first port, last port, timeout) as
  parameters; the source has them inline, and \<open>main\<close> below puts them back. Returning
  from \<^verbatim>\<open>main\<close> ends a Go process with exit status 0, and the body has no other way
  out: no \<^verbatim>\<open>os.Exit\<close>, no \<^verbatim>\<open>panic\<close>, no \<^verbatim>\<open>return\<close> in the loop, and \<^verbatim>\<open>conn\<close> is
  not \<^verbatim>\<open>nil\<close> where it is closed.
\<close>

definition scan :: "network \<Rightarrow> string \<Rightarrow> int \<Rightarrow> int \<Rightarrow> int \<Rightarrow> process" where
  "scan dial target lo hi timeout =
     \<lparr> trace = scan_loop dial target hi timeout lo [], exit_status = 0 \<rparr>"

text \<open>\<^verbatim>\<open>main\<close> itself: the literals of the source.\<close>

definition main :: "network \<Rightarrow> process" where
  "main dial = scan dial ''scanme.nmap.org'' 20 1024 (1 * Second)"

subsection \<open>Reading a trace\<close>

text \<open>The connection attempts of a trace, in order.\<close>

fun dials :: "event list \<Rightarrow> (string \<times> string \<times> int) list" where
  "dials [] = []"
| "dials (DialTimeout n a t # es) = (n, a, t) # dials es"
| "dials (e # es) = dials es"

text \<open>What a trace wrote to standard output, one entry per write, in order.\<close>

fun stdout_of :: "event list \<Rightarrow> string list" where
  "stdout_of [] = []"
| "stdout_of (Stdout s # es) = s # stdout_of es"
| "stdout_of (e # es) = stdout_of es"

text \<open>Application data on a connection, and diagnostics.\<close>

fun is_data_transfer :: "event \<Rightarrow> bool" where
  "is_data_transfer (ConnRead c) = True"
| "is_data_transfer (ConnWrite c s) = True"
| "is_data_transfer e = False"

fun is_diagnostic :: "event \<Rightarrow> bool" where
  "is_diagnostic (Stderr s) = True"
| "is_diagnostic e = False"

text \<open>Whether the attempt on a port succeeds, that is, whether \<^verbatim>\<open>err == nil\<close>.\<close>

definition is_open :: "network \<Rightarrow> string \<Rightarrow> int \<Rightarrow> int \<Rightarrow> bool" where
  "is_open dial target timeout port =
     (case dial ''tcp'' (sprintf_address target port) timeout of
        Connected c \<Rightarrow> True
      | Failed err \<Rightarrow> False)"

text \<open>
  The name of the target does not resolve: \<^verbatim>\<open>net.DialTimeout\<close> looks the name up at
  every call, so each attempt on the given ports fails with that error.
\<close>

definition unresolved_on :: "network \<Rightarrow> string \<Rightarrow> int \<Rightarrow> int list \<Rightarrow> bool" where
  "unresolved_on dial target timeout ports =
     list_all (\<lambda>p. dial ''tcp'' (sprintf_address target p) timeout = Failed NoSuchHost) ports"

subsection \<open>Networks used as examples\<close>

text \<open>Nothing listens anywhere.\<close>

definition refuse_all :: network where
  "refuse_all n a t = Failed ConnRefused"

text \<open>The name of the target does not resolve, so every dial fails.\<close>

definition no_such_host :: network where
  "no_such_host n a t = Failed NoSuchHost"

text \<open>Listeners on ports 22 and 443 of the target, nothing else.\<close>

definition ssh_and_https :: network where
  "ssh_and_https n a t =
     (if a = ''scanme.nmap.org:22'' then Connected 3
      else if a = ''scanme.nmap.org:443'' then Connected 3
      else Failed ConnRefused)"

text \<open>The same listeners seen another day: other handles, timeouts instead of refusals.\<close>

definition ssh_and_https_filtered :: network where
  "ssh_and_https_filtered n a t =
     (if a = ''scanme.nmap.org:22'' then Connected 5
      else if a = ''scanme.nmap.org:443'' then Connected 6
      else Failed Timeout)"

section \<open>Facts about the model\<close>

subsection \<open>Decimal formatting is injective\<close>

lemma digit_char_inj: "a < 10 \<Longrightarrow> b < 10 \<Longrightarrow> digit_char a = digit_char b \<Longrightarrow> a = b"
  unfolding digit_char_def
  by (simp add: less_Suc_eq numeral_eq_Suc nth_Cons' eval_nat_numeral split: if_splits) 

lemma digits_not_Nil: "digits n \<noteq> []"
  by (subst digits.simps) simp

lemma digit_char_not_minus: "d < 10 \<Longrightarrow> digit_char d \<noteq> CHR ''-''"
  unfolding digit_char_def
  by (auto simp add: less_Suc_eq numeral_eq_Suc nth_Cons')

lemma hd_digits_not_minus: "hd (digits n) \<noteq> CHR ''-''"
proof (induction n rule: digits.induct)
  case (1 n)
  show ?case
  proof (cases "n < 10")
    case True
    then show ?thesis
      by (simp add: digits.simps [of n] digit_char_not_minus)
  next
    case False
    with "1.IH" digits_not_Nil [of "n div 10"] show ?thesis
      by (simp add: digits.simps [of n])
  qed
qed

lemma digits_inj: "digits m = digits n \<Longrightarrow> m = n"
proof (induction m arbitrary: n rule: digits.induct)
  case (1 m)
  show ?case
  proof (cases "m < 10")
    case m: True
    show ?thesis
    proof (cases "n < 10")
      case True
      with m "1.prems" show ?thesis
        by (simp add: digits.simps [of m] digits.simps [of n] digit_char_inj)
    next
      case False
      with m "1.prems" digits_not_Nil [of "n div 10"] show ?thesis
        by (simp add: digits.simps [of m] digits.simps [of n])
    qed
  next
    case m: False
    show ?thesis
    proof (cases "n < 10")
      case True
      with m "1.prems" digits_not_Nil [of "m div 10"] show ?thesis
        by (simp add: digits.simps [of m] digits.simps [of n])
    next
      case False
      with m "1.prems" have eq: "digits (m div 10) = digits (n div 10)"
        and d: "digit_char (m mod 10) = digit_char (n mod 10)"
        by (simp_all add: digits.simps [of m] digits.simps [of n])
      from "1.IH" [OF m eq] have "m div 10 = n div 10" .
      moreover from d have "m mod 10 = n mod 10"
        by (intro digit_char_inj) simp_all
      ultimately show ?thesis
        by (metis div_mult_mod_eq)
    qed
  qed
qed

lemma fmt_d_inj: "fmt_d i = fmt_d j \<Longrightarrow> i = j"
proof -
  assume eq: "fmt_d i = fmt_d j"
  have neg_pos: False if "a < 0" "\<not> b < 0" "fmt_d a = fmt_d b" for a b
  proof -
    from that have "CHR ''-'' # digits (nat (- a)) = digits (nat b)"
      by (simp add: fmt_d_def)
    then have "hd (digits (nat b)) = CHR ''-''"
      by (metis list.sel(1))
    with hd_digits_not_minus show False by blast
  qed
  show ?thesis
  proof (cases "i < 0")
    case i: True
    show ?thesis
    proof (cases "j < 0")
      case True
      with i eq have "nat (- i) = nat (- j)"
        by (simp add: fmt_d_def digits_inj)
      with i True show ?thesis by simp
    next
      case False
      with i eq neg_pos show ?thesis by blast
    qed
  next
    case i: False
    show ?thesis
    proof (cases "j < 0")
      case True
      with i eq neg_pos [of j i] show ?thesis by simp
    next
      case False
      with i eq have "nat i = nat j"
        by (simp add: fmt_d_def digits_inj)
      with i False show ?thesis by simp
    qed
  qed
qed

lemma sprintf_address_inj: "sprintf_address target p = sprintf_address target q \<Longrightarrow> p = q"
  by (simp add: sprintf_address_def fmt_d_inj)

lemma printf_port_open_inj: "printf_port_open p = printf_port_open q \<Longrightarrow> p = q"
  by (simp add: printf_port_open_def fmt_d_inj)

subsection \<open>The loop as a concatenation of its iterations\<close>

text \<open>
  An iteration only appends to the trace, so the trace of the loop is the events of
  its iterations, for the ports from the current one up to the last, one after another.
\<close>

lemma scan_port_append: "scan_port dial target timeout port tr = tr @ scan_port dial target timeout port []"
  by (simp add: scan_port_def Let_def split: dial_result.splits)

lemma scan_loop_eq:
  "scan_loop dial target hi timeout port tr =
     tr @ concat (map (\<lambda>p. scan_port dial target timeout p []) [port..hi])"
proof (induction dial target hi timeout port tr rule: scan_loop.induct)
  case (1 dial target hi timeout port tr)
  show ?case
  proof (cases "port \<le> hi")
    case True
    have "scan_loop dial target hi timeout port tr =
            scan_loop dial target hi timeout (port + 1) (scan_port dial target timeout port tr)"
      using True by (subst scan_loop.simps) simp
    also have "\<dots> = scan_port dial target timeout port tr @
                 concat (map (\<lambda>p. scan_port dial target timeout p []) [port + 1..hi])"
      using "1.IH" [OF True] .
    also have "\<dots> = tr @ concat (map (\<lambda>p. scan_port dial target timeout p []) [port..hi])"
      using True by (subst scan_port_append) (simp add: upto_rec1 [of port hi])
    finally show ?thesis .
  next
    case False
    then show ?thesis
      by (subst scan_loop.simps) simp
  qed
qed

lemma trace_scan:
  "trace (scan dial target lo hi timeout) =
     concat (map (\<lambda>p. scan_port dial target timeout p []) [lo..hi])"
  by (simp add: scan_def scan_loop_eq)

lemma dials_append: "dials (xs @ ys) = dials xs @ dials ys"
  by (induction xs rule: dials.induct) simp_all

lemma stdout_of_append: "stdout_of (xs @ ys) = stdout_of xs @ stdout_of ys"
  by (induction xs rule: stdout_of.induct) simp_all

lemma dials_scan_port:
  "dials (scan_port dial target timeout p []) = [(''tcp'', sprintf_address target p, timeout)]"
  by (simp add: scan_port_def Let_def split: dial_result.splits)

lemma stdout_of_scan_port:
  "stdout_of (scan_port dial target timeout p []) =
     (if is_open dial target timeout p then [printf_port_open p] else [])"
  by (simp add: scan_port_def is_open_def Let_def split: dial_result.splits)

lemma dials_ports:
  "dials (concat (map (\<lambda>p. scan_port dial target timeout p []) ps)) =
     map (\<lambda>p. (''tcp'', sprintf_address target p, timeout)) ps"
  by (induction ps) (simp_all add: dials_append dials_scan_port)

lemma stdout_of_ports:
  "stdout_of (concat (map (\<lambda>p. scan_port dial target timeout p []) ps)) =
     map printf_port_open (filter (is_open dial target timeout) ps)"
  by (induction ps) (simp_all add: stdout_of_append stdout_of_scan_port)

lemma main_scan: "main dial = scan dial ''scanme.nmap.org'' 20 1024 Second"
  by (simp only: main_def mult_1)

lemma exit_status_scan: "exit_status (scan dial target lo hi timeout) = 0"
  by (simp add: scan_def)

lemma exit_status_main: "exit_status (main dial) = 0"
  by (simp add: main_def exit_status_scan)

subsection \<open>One iteration, and counting reports\<close>

lemma ports_split:
  assumes "lo \<le> p" "p \<le> hi"
  shows "concat (map f [lo..hi]) = concat (map f [lo..p - 1]) @ f p @ concat (map f [p + 1..hi])"
  using assms by (simp add: upto_split3 [of lo p hi])

lemma scan_port_open:
  "dial ''tcp'' (sprintf_address target p) timeout = Connected c \<Longrightarrow>
   scan_port dial target timeout p [] =
     [DialTimeout ''tcp'' (sprintf_address target p) timeout, Stdout (printf_port_open p), Close c]"
  by (simp add: scan_port_def)

lemma scan_port_failed:
  "dial ''tcp'' (sprintf_address target p) timeout = Failed err \<Longrightarrow>
   scan_port dial target timeout p [] = [DialTimeout ''tcp'' (sprintf_address target p) timeout]"
  by (simp add: scan_port_def)

lemma count_scan_port:
  "count_list (scan_port dial target timeout p []) (Stdout (printf_port_open q)) =
     (if p = q \<and> is_open dial target timeout p then 1 else 0)"
  by (auto simp add: scan_port_def is_open_def Let_def dest: printf_port_open_inj
      split: dial_result.splits)

lemma count_ports:
  "count_list (concat (map (\<lambda>p. scan_port dial target timeout p []) ps))
       (Stdout (printf_port_open q)) =
     (if is_open dial target timeout q then count_list ps q else 0)"
  by (induction ps) (simp_all add: count_scan_port)

lemma count_list_distinct: "distinct xs \<Longrightarrow> count_list xs x = (if x \<in> set xs then 1 else 0)"
  by (induction xs) auto

lemma count_upto: "count_list [lo..hi] (p::int) = (if lo \<le> p \<and> p \<le> hi then 1 else 0)"
  by (simp add: count_list_distinct)

lemma no_data_transfer_ports:
  "\<not> list_ex is_data_transfer (concat (map (\<lambda>p. scan_port dial target timeout p []) ps))"
  by (induction ps) (simp_all add: scan_port_def Let_def split: dial_result.splits)

lemma no_diagnostic_ports:
  "\<not> list_ex is_diagnostic (concat (map (\<lambda>p. scan_port dial target timeout p []) ps))"
  by (induction ps) (simp_all add: scan_port_def Let_def split: dial_result.splits)

lemma scan_port_same:
  assumes "is_open d1 target timeout p = is_open d2 target timeout p"
    and "is_open d1 target timeout p \<Longrightarrow>
           d1 ''tcp'' (sprintf_address target p) timeout = d2 ''tcp'' (sprintf_address target p) timeout"
  shows "scan_port d1 target timeout p [] = scan_port d2 target timeout p []"
proof (cases "d1 ''tcp'' (sprintf_address target p) timeout")
  case (Connected c)
  then have "is_open d1 target timeout p"
    by (simp add: is_open_def)
  with assms(2) Connected have "d2 ''tcp'' (sprintf_address target p) timeout = Connected c"
    by simp
  with Connected show ?thesis
    by (simp add: scan_port_def)
next
  case (Failed e1)
  then have "\<not> is_open d2 target timeout p"
    using assms(1) by (simp add: is_open_def)
  then obtain e2 where "d2 ''tcp'' (sprintf_address target p) timeout = Failed e2"
    by (cases "d2 ''tcp'' (sprintf_address target p) timeout") (simp_all add: is_open_def)
  with Failed show ?thesis
    by (simp add: scan_port_def)
qed

lemma sorted_open_ports: "sorted_wrt (<) (filter P [lo..hi::int])"
  by (simp add: sorted_wrt_filter)

lemma distinct_reports: "distinct (map printf_port_open (filter P [lo..hi]))"
  by (simp add: distinct_map inj_on_def printf_port_open_inj)

lemma distinct_addresses:
  "distinct (map (\<lambda>p. (''tcp'', sprintf_address target p, timeout)) [lo..hi])"
  by (auto simp add: distinct_map inj_on_def dest: sprintf_address_inj)

subsection \<open>A whole scan\<close>

lemma dials_scan:
  "dials (trace (scan dial target lo hi timeout)) =
     map (\<lambda>q. (''tcp'', sprintf_address target q, timeout)) [lo..hi]"
  by (simp add: trace_scan dials_ports)

lemma dials_rest:
  "dials (scan_loop dial target hi timeout lo []) =
     map (\<lambda>q. (''tcp'', sprintf_address target q, timeout)) [lo..hi]"
  by (simp add: scan_loop_eq dials_ports)

lemma length_dials_scan:
  "length (dials (trace (scan dial target lo hi timeout))) = nat (hi - lo + 1)"
  by (simp add: dials_scan)

lemma timeouts_scan:
  "map (snd \<circ> snd) (dials (trace (scan dial target lo hi timeout))) =
     replicate (nat (hi - lo + 1)) timeout"
  by (simp add: dials_scan comp_def map_replicate_const)

lemma stdout_of_scan:
  "stdout_of (trace (scan dial target lo hi timeout)) =
     map printf_port_open (filter (is_open dial target timeout) [lo..hi])"
  by (simp add: trace_scan stdout_of_ports)

lemma distinct_stdout_scan: "distinct (stdout_of (trace (scan dial target lo hi timeout)))"
  by (simp only: stdout_of_scan distinct_reports)

lemma length_stdout_scan:
  "length (stdout_of (trace (scan dial target lo hi timeout))) \<le> nat (hi - lo + 1)"
proof -
  have "length (filter (is_open dial target timeout) [lo..hi]) \<le> length [lo..hi]"
    by (rule length_filter_le)
  then show ?thesis
    by (simp add: stdout_of_scan)
qed

lemma length_scan_port:
  "length (scan_port dial target timeout p []) = (if is_open dial target timeout p then 3 else 1)"
  by (simp add: scan_port_def is_open_def Let_def split: dial_result.splits)

lemma length_ports:
  "length (concat (map (\<lambda>p. scan_port dial target timeout p []) ps)) =
     length ps + 2 * length (filter (is_open dial target timeout) ps)"
  by (induction ps) (simp_all add: length_scan_port)

lemma length_trace_scan:
  "length (trace (scan dial target lo hi timeout)) =
     nat (hi - lo + 1) + 2 * length (stdout_of (trace (scan dial target lo hi timeout)))"
  by (simp add: trace_scan stdout_of_ports length_ports)

lemma no_data_transfer_scan:
  "\<not> list_ex is_data_transfer (trace (scan dial target lo hi timeout))"
  by (simp add: trace_scan no_data_transfer_ports)

lemma no_diagnostic_scan:
  "\<not> list_ex is_diagnostic (trace (scan dial target lo hi timeout))"
  by (simp add: trace_scan no_diagnostic_ports)

subsection \<open>Where a port sits in a scan\<close>

lemma scan_split:
  assumes "lo \<le> p" "p \<le> hi"
  shows "trace (scan dial target lo hi timeout) =
           trace (scan dial target lo (p - 1) timeout) @
           scan_port dial target timeout p [] @
           scan_loop dial target hi timeout (p + 1) []"
  using assms by (simp add: trace_scan scan_loop_eq ports_split [of lo p hi])

lemma loop_exit: "hi < port \<Longrightarrow> scan_loop dial target hi timeout port tr = tr"
  by (subst scan_loop.simps) simp

lemma scan_last:
  assumes "lo \<le> hi"
  shows "trace (scan dial target lo hi timeout) =
           trace (scan dial target lo (hi - 1) timeout) @ scan_port dial target timeout hi []"
  using scan_split [of lo hi hi dial target timeout] assms
  by (simp add: loop_exit)

subsection \<open>How often a line is written\<close>

lemma count_report_scan:
  "count_list (trace (scan dial target lo hi timeout)) (Stdout (printf_port_open p)) =
     (if lo \<le> p \<and> p \<le> hi \<and> is_open dial target timeout p then 1 else 0)"
  by (simp add: trace_scan count_ports count_upto)

lemma count_list_le_1: "distinct xs \<Longrightarrow> count_list xs x \<le> 1"
  by (simp add: count_list_distinct)

lemma count_list_map_inj:
  assumes "\<And>x y. f x = f y \<Longrightarrow> x = y"
  shows "count_list (map f xs) (f x) = count_list xs x"
  using assms by (induction xs) auto

lemma count_list_filter: "count_list (filter P xs) x = (if P x then count_list xs x else 0)"
  by (induction xs) auto

lemma count_stdout_scan:
  "count_list (stdout_of (trace (scan dial target lo hi timeout))) (printf_port_open p) =
     (if lo \<le> p \<and> p \<le> hi \<and> is_open dial target timeout p then 1 else 0)"
  by (simp add: stdout_of_scan count_list_map_inj [of printf_port_open, OF printf_port_open_inj]
      count_list_filter count_upto)

subsection \<open>Scans that see the same outcomes\<close>

lemma scan_same:
  assumes "\<And>q. lo \<le> q \<Longrightarrow> q \<le> hi \<Longrightarrow>
             is_open d1 target timeout q = is_open d2 target timeout q"
    and "\<And>q. lo \<le> q \<Longrightarrow> q \<le> hi \<Longrightarrow> is_open d1 target timeout q \<Longrightarrow>
             d1 ''tcp'' (sprintf_address target q) timeout =
             d2 ''tcp'' (sprintf_address target q) timeout"
  shows "scan d1 target lo hi timeout = scan d2 target lo hi timeout"
proof -
  have "map (\<lambda>p. scan_port d1 target timeout p []) [lo..hi] =
        map (\<lambda>p. scan_port d2 target timeout p []) [lo..hi]"
  proof (rule map_cong [OF refl])
    fix q assume "q \<in> set [lo..hi]"
    then have "lo \<le> q" "q \<le> hi" by simp_all
    then show "scan_port d1 target timeout q [] = scan_port d2 target timeout q []"
      using assms by (intro scan_port_same) blast+
  qed
  then show ?thesis
    by (simp only: scan_def scan_loop_eq)
qed

lemma stdout_same:
  assumes "\<And>q. lo \<le> q \<Longrightarrow> q \<le> hi \<Longrightarrow>
             is_open d1 target timeout q = is_open d2 target timeout q"
  shows "stdout_of (trace (scan d1 target lo hi timeout)) =
         stdout_of (trace (scan d2 target lo hi timeout))"
proof -
  have "filter (is_open d1 target timeout) [lo..hi] = filter (is_open d2 target timeout) [lo..hi]"
    using assms by (intro filter_cong [OF refl]) simp
  then show ?thesis
    by (simp add: stdout_of_scan)
qed

subsection \<open>Scans with no open port\<close>

lemma scan_port_closed:
  "\<not> is_open dial target timeout p \<Longrightarrow>
   scan_port dial target timeout p [] = [DialTimeout ''tcp'' (sprintf_address target p) timeout]"
  by (simp add: scan_port_def is_open_def Let_def split: dial_result.splits)

lemma ports_all_closed:
  "\<forall>p \<in> set ps. \<not> is_open dial target timeout p \<Longrightarrow>
   concat (map (\<lambda>p. scan_port dial target timeout p []) ps) =
     map (\<lambda>p. DialTimeout ''tcp'' (sprintf_address target p) timeout) ps"
  by (induction ps) (simp_all add: scan_port_closed)

lemma scan_all_closed:
  assumes "\<And>p. lo \<le> p \<Longrightarrow> p \<le> hi \<Longrightarrow> \<not> is_open dial target timeout p"
  shows "trace (scan dial target lo hi timeout) =
           map (\<lambda>p. DialTimeout ''tcp'' (sprintf_address target p) timeout) [lo..hi]"
  using assms by (simp add: trace_scan ports_all_closed)

lemma stdout_all_closed:
  assumes "\<And>p. lo \<le> p \<Longrightarrow> p \<le> hi \<Longrightarrow> \<not> is_open dial target timeout p"
  shows "stdout_of (trace (scan dial target lo hi timeout)) = []"
  using assms by (simp add: stdout_of_scan)

lemma unresolved_on_closed:
  assumes "unresolved_on dial target timeout [lo..hi]" and "lo \<le> p" and "p \<le> hi"
  shows "\<not> is_open dial target timeout p"
  using assms by (simp add: unresolved_on_def list_all_iff is_open_def)

subsection \<open>Values for the examples\<close>

lemma address_22: "sprintf_address ''scanme.nmap.org'' 22 = ''scanme.nmap.org:22''"
  by (simp add: sprintf_address_def fmt_d_def digits.simps digit_char_def)

lemma address_23: "sprintf_address ''scanme.nmap.org'' 23 = ''scanme.nmap.org:23''"
  by (simp add: sprintf_address_def fmt_d_def digits.simps digit_char_def)

lemma address_443: "sprintf_address ''scanme.nmap.org'' 443 = ''scanme.nmap.org:443''"
  by (simp add: sprintf_address_def fmt_d_def digits.simps digit_char_def)

lemma report_22: "printf_port_open 22 = ''Port 22 open'' @ [CHR 0x0A]"
  by (simp add: printf_port_open_def fmt_d_def digits.simps digit_char_def)

lemma report_23: "printf_port_open 23 = ''Port 23 open'' @ [CHR 0x0A]"
  by (simp add: printf_port_open_def fmt_d_def digits.simps digit_char_def)

lemma report_443: "printf_port_open 443 = ''Port 443 open'' @ [CHR 0x0A]"
  by (simp add: printf_port_open_def fmt_d_def digits.simps digit_char_def)

lemma ssh_and_https_22:
  "ssh_and_https ''tcp'' (sprintf_address ''scanme.nmap.org'' 22) Second = Connected 3"
  by (simp add: ssh_and_https_def address_22)

lemma ssh_and_https_23:
  "ssh_and_https ''tcp'' (sprintf_address ''scanme.nmap.org'' 23) Second = Failed ConnRefused"
  by (simp add: ssh_and_https_def address_23)

lemma is_open_ssh_and_https:
  "is_open ssh_and_https ''scanme.nmap.org'' timeout p \<longleftrightarrow> p = 22 \<or> p = 443"
proof -
  have "sprintf_address ''scanme.nmap.org'' p = ''scanme.nmap.org:22'' \<longleftrightarrow> p = 22"
    using sprintf_address_inj [of "''scanme.nmap.org''" p 22] by (auto simp add: address_22)
  moreover
  have "sprintf_address ''scanme.nmap.org'' p = ''scanme.nmap.org:443'' \<longleftrightarrow> p = 443"
    using sprintf_address_inj [of "''scanme.nmap.org''" p 443] by (auto simp add: address_443)
  ultimately show ?thesis
    by (simp add: is_open_def ssh_and_https_def)
qed

lemma is_open_ssh_and_https_filtered:
  "is_open ssh_and_https_filtered ''scanme.nmap.org'' timeout p \<longleftrightarrow> p = 22 \<or> p = 443"
proof -
  have "sprintf_address ''scanme.nmap.org'' p = ''scanme.nmap.org:22'' \<longleftrightarrow> p = 22"
    using sprintf_address_inj [of "''scanme.nmap.org''" p 22] by (auto simp add: address_22)
  moreover
  have "sprintf_address ''scanme.nmap.org'' p = ''scanme.nmap.org:443'' \<longleftrightarrow> p = 443"
    using sprintf_address_inj [of "''scanme.nmap.org''" p 443] by (auto simp add: address_443)
  ultimately show ?thesis
    by (simp add: is_open_def ssh_and_https_filtered_def)
qed

lemma is_open_refuse_all: "\<not> is_open refuse_all target timeout p"
  by (simp add: is_open_def refuse_all_def)

lemma open_ports_ssh_and_https:
  "filter (is_open ssh_and_https ''scanme.nmap.org'' timeout) [20..1024] = [22, 443]"
proof -
  have "[20..1024] = [20..21] @ 22 # [23..442] @ 443 # [444..1024::int]"
    using upto_split3 [of 20 22 1024] upto_split3 [of 23 443 1024]
    by (simp del: upto_rec_numeral)
  then show ?thesis
    by (simp add: is_open_ssh_and_https del: upto_rec_numeral)
qed

lemma stdout_ssh_and_https:
  "stdout_of (trace (main ssh_and_https)) =
     [''Port 22 open'' @ [CHR 0x0A], ''Port 443 open'' @ [CHR 0x0A]]"
  by (simp only: main_scan stdout_of_scan open_ports_ssh_and_https list.map report_22 report_443)

lemma unresolved_on_no_such_host: "unresolved_on no_such_host target timeout ports"
  by (simp add: unresolved_on_def no_such_host_def list_all_iff)

section \<open>The claims\<close>

text \<open>
  In what follows \<open>dial\<close> is any behaviour of \<^verbatim>\<open>net.DialTimeout\<close>, and a port is open
  when its attempt returns a connection.
\<close>

subsection \<open>C1: an open port is reported once and its connection closed at once\<close>

text \<open>
  Claim C1. For a port \<open>p\<close> of 20..1024 whose attempt succeeds with connection \<open>c\<close>:
  the line for \<open>p\<close> is written exactly once in the whole run; the run is the scan of
  the ports below \<open>p\<close>, then the attempt on \<open>p\<close>, the report, and the close of \<open>c\<close>
  with nothing in between, then the scan of the ports above \<open>p\<close>; and no event of the
  run reads from or writes to a connection.
\<close>

theorem C1_open_port_reported_once_then_closed:
  assumes "20 \<le> p" and "p \<le> 1024"
    and "dial ''tcp'' (sprintf_address ''scanme.nmap.org'' p) Second = Connected c"
  shows "count_list (trace (main dial)) (Stdout (printf_port_open p)) = 1 \<and>
         trace (main dial) =
           trace (scan dial ''scanme.nmap.org'' 20 (p - 1) Second) @
           [DialTimeout ''tcp'' (sprintf_address ''scanme.nmap.org'' p) Second,
            Stdout (printf_port_open p),
            Close c] @
           scan_loop dial ''scanme.nmap.org'' 1024 Second (p + 1) [] \<and>
         \<not> list_ex is_data_transfer (trace (main dial))"
proof -
  from assms(3) have "is_open dial ''scanme.nmap.org'' Second p"
    by (simp add: is_open_def)
  with assms(1,2) have "count_list (trace (main dial)) (Stdout (printf_port_open p)) = 1"
    by (simp add: main_scan count_report_scan)
  moreover have "trace (main dial) =
      trace (scan dial ''scanme.nmap.org'' 20 (p - 1) Second) @
      [DialTimeout ''tcp'' (sprintf_address ''scanme.nmap.org'' p) Second,
       Stdout (printf_port_open p), Close c] @
      scan_loop dial ''scanme.nmap.org'' 1024 Second (p + 1) []"
    using scan_split [OF assms(1,2), of dial "''scanme.nmap.org''" Second]
      scan_port_open [of dial "''scanme.nmap.org''" p Second c] assms(3)
    by (simp add: main_scan)
  moreover have "\<not> list_ex is_data_transfer (trace (main dial))"
    by (simp add: main_scan no_data_transfer_scan)
  ultimately show ?thesis by blast
qed

theorem C1_witness:
  "(20::int) \<le> 22 \<and> (22::int) \<le> 1024 \<and>
   ssh_and_https ''tcp'' (sprintf_address ''scanme.nmap.org'' 22) Second = Connected 3 \<and>
   count_list (trace (main ssh_and_https)) (Stdout (''Port 22 open'' @ [CHR 0x0A])) = 1 \<and>
   trace (main ssh_and_https) =
     trace (scan ssh_and_https ''scanme.nmap.org'' 20 21 Second) @
     [DialTimeout ''tcp'' ''scanme.nmap.org:22'' Second,
      Stdout (''Port 22 open'' @ [CHR 0x0A]),
      Close 3] @
     scan_loop ssh_and_https ''scanme.nmap.org'' 1024 Second 23 [] \<and>
   \<not> list_ex is_data_transfer (trace (main ssh_and_https))"
proof -
  have h: "ssh_and_https ''tcp'' (sprintf_address ''scanme.nmap.org'' 22) Second = Connected 3"
    by (rule ssh_and_https_22)
  note c = C1_open_port_reported_once_then_closed [of 22 ssh_and_https 3, OF _ _ h, simplified]
  show ?thesis
  proof (intro conjI)
    show "count_list (trace (main ssh_and_https)) (Stdout (''Port 22 open'' @ [CHR 0x0A])) = 1"
      using c [THEN conjunct1] by (simp add: report_22)
    show "trace (main ssh_and_https) =
        trace (scan ssh_and_https ''scanme.nmap.org'' 20 21 Second) @
        [DialTimeout ''tcp'' ''scanme.nmap.org:22'' Second,
         Stdout (''Port 22 open'' @ [CHR 0x0A]), Close 3] @
        scan_loop ssh_and_https ''scanme.nmap.org'' 1024 Second 23 []"
      using c [THEN conjunct2, THEN conjunct1] by (simp add: address_22 report_22)
    show "\<not> list_ex is_data_transfer (trace (main ssh_and_https))"
      using c [THEN conjunct2, THEN conjunct2] .
  qed (simp_all add: h)
qed

subsection \<open>C2: a failed attempt is silent and the scan goes on\<close>

text \<open>
  Claim C2. For a port \<open>p\<close> of 20..1024 whose attempt fails with any error \<open>err\<close>:
  the line for \<open>p\<close> is never written; the only event for \<open>p\<close> is the attempt itself,
  after which the loop goes on with \<open>p + 1\<close> and attempts every port up to 1024; the
  run is the same whatever the error is (replacing it by any \<open>err'\<close> changes nothing),
  so the error is not observable; nothing is written to standard error; and the process
  ends with status 0.
\<close>

theorem C2_failed_port_silent_and_scan_continues:
  assumes "20 \<le> p" and "p \<le> 1024"
    and "dial ''tcp'' (sprintf_address ''scanme.nmap.org'' p) Second = Failed err"
  shows "Stdout (printf_port_open p) \<notin> set (trace (main dial)) \<and>
         trace (main dial) =
           trace (scan dial ''scanme.nmap.org'' 20 (p - 1) Second) @
           [DialTimeout ''tcp'' (sprintf_address ''scanme.nmap.org'' p) Second] @
           scan_loop dial ''scanme.nmap.org'' 1024 Second (p + 1) [] \<and>
         dials (scan_loop dial ''scanme.nmap.org'' 1024 Second (p + 1) []) =
           map (\<lambda>q. (''tcp'', sprintf_address ''scanme.nmap.org'' q, Second)) [p + 1..1024] \<and>
         main (\<lambda>n a t. if a = sprintf_address ''scanme.nmap.org'' p then Failed err'
                        else dial n a t) = main dial \<and>
         \<not> list_ex is_diagnostic (trace (main dial)) \<and>
         exit_status (main dial) = 0"
proof -
  let ?T = "''scanme.nmap.org''"
  let ?d = "\<lambda>n a t. if a = sprintf_address ?T p then Failed err' else dial n a t"
  from assms(3) have closed: "\<not> is_open dial ?T Second p"
    by (simp add: is_open_def)
  then have "count_list (trace (main dial)) (Stdout (printf_port_open p)) = 0"
    by (simp add: main_scan count_report_scan)
  then have silent: "Stdout (printf_port_open p) \<notin> set (trace (main dial))"
    by (simp add: count_list_0_iff)
  have shape: "trace (main dial) =
      trace (scan dial ?T 20 (p - 1) Second) @
      [DialTimeout ''tcp'' (sprintf_address ?T p) Second] @
      scan_loop dial ?T 1024 Second (p + 1) []"
    using scan_split [OF assms(1,2), of dial ?T Second]
      scan_port_failed [of dial ?T p Second err] assms(3)
    by (simp add: main_scan)
  have rest: "dials (scan_loop dial ?T 1024 Second (p + 1) []) =
      map (\<lambda>q. (''tcp'', sprintf_address ?T q, Second)) [p + 1..1024]"
    by (rule dials_rest)
  have "scan ?d ?T 20 1024 Second = scan dial ?T 20 1024 Second"
  proof (rule scan_same)
    fix q :: int
    show "is_open ?d ?T Second q = is_open dial ?T Second q"
      using closed by (auto simp add: is_open_def dest: sprintf_address_inj)
    show "?d ''tcp'' (sprintf_address ?T q) Second = dial ''tcp'' (sprintf_address ?T q) Second"
      if "is_open ?d ?T Second q"
      using that by (simp add: is_open_def split: if_splits)
  qed
  then have same: "main ?d = main dial"
    by (simp only: main_scan)
  have quiet: "\<not> list_ex is_diagnostic (trace (main dial))"
    by (simp add: main_scan no_diagnostic_scan)
  from silent shape rest same quiet exit_status_main [of dial] show ?thesis
    by blast
qed

theorem C2_witness:
  "(20::int) \<le> 23 \<and> (23::int) \<le> 1024 \<and>
   ssh_and_https ''tcp'' (sprintf_address ''scanme.nmap.org'' 23) Second = Failed ConnRefused \<and>
   Stdout (''Port 23 open'' @ [CHR 0x0A]) \<notin> set (trace (main ssh_and_https)) \<and>
   trace (main ssh_and_https) =
     trace (scan ssh_and_https ''scanme.nmap.org'' 20 22 Second) @
     [DialTimeout ''tcp'' ''scanme.nmap.org:23'' Second] @
     scan_loop ssh_and_https ''scanme.nmap.org'' 1024 Second 24 [] \<and>
   dials (scan_loop ssh_and_https ''scanme.nmap.org'' 1024 Second 24 []) =
     map (\<lambda>q. (''tcp'', sprintf_address ''scanme.nmap.org'' q, Second)) [24..1024] \<and>
   main (\<lambda>n a t. if a = ''scanme.nmap.org:23'' then Failed Timeout else ssh_and_https n a t) =
     main ssh_and_https \<and>
   \<not> list_ex is_diagnostic (trace (main ssh_and_https)) \<and>
   exit_status (main ssh_and_https) = 0"
proof -
  have h: "ssh_and_https ''tcp'' (sprintf_address ''scanme.nmap.org'' 23) Second = Failed ConnRefused"
    by (rule ssh_and_https_23)
  have c: "Stdout (printf_port_open 23) \<notin> set (trace (main ssh_and_https)) \<and>
         trace (main ssh_and_https) =
           trace (scan ssh_and_https ''scanme.nmap.org'' 20 (23 - 1) Second) @
           [DialTimeout ''tcp'' (sprintf_address ''scanme.nmap.org'' 23) Second] @
           scan_loop ssh_and_https ''scanme.nmap.org'' 1024 Second (23 + 1) [] \<and>
         dials (scan_loop ssh_and_https ''scanme.nmap.org'' 1024 Second (23 + 1) []) =
           map (\<lambda>q. (''tcp'', sprintf_address ''scanme.nmap.org'' q, Second)) [23 + 1..1024] \<and>
         main (\<lambda>n a t. if a = sprintf_address ''scanme.nmap.org'' 23 then Failed Timeout
                        else ssh_and_https n a t) = main ssh_and_https \<and>
         \<not> list_ex is_diagnostic (trace (main ssh_and_https)) \<and>
         exit_status (main ssh_and_https) = 0"
    by (rule C2_failed_port_silent_and_scan_continues [of 23 ssh_and_https ConnRefused Timeout, OF _ _ h])
      simp_all
  have n: "(23::int) - 1 = 22" "(23::int) + 1 = 24"
    by simp_all
  have r: "(20::int) \<le> 23" "(23::int) \<le> 1024"
    by simp_all
  show ?thesis
    using r h c unfolding n address_23 report_23 by blast
qed

subsection \<open>C3: ascending attempts, strictly increasing reports\<close>

text \<open>
  Claim C3. The attempts of a run are, in this order, the ports 20, 21, ..., 1024 (the
  list \<open>[20..1024]\<close>, which is strictly increasing), each at the address of the target
  with that port; what is written to standard output is the report lines of the open
  ports among them, in the same order, so the reported ports are strictly increasing.
\<close>

theorem C3_ascending_attempts_and_reports:
  "dials (trace (main dial)) =
     map (\<lambda>q. (''tcp'', sprintf_address ''scanme.nmap.org'' q, Second)) [20..1024] \<and>
   sorted_wrt (<) [20..1024::int] \<and>
   stdout_of (trace (main dial)) =
     map printf_port_open (filter (is_open dial ''scanme.nmap.org'' Second) [20..1024]) \<and>
   sorted_wrt (<) (filter (is_open dial ''scanme.nmap.org'' Second) [20..1024])"
proof (intro conjI)
  show "dials (trace (main dial)) =
      map (\<lambda>q. (''tcp'', sprintf_address ''scanme.nmap.org'' q, Second)) [20..1024]"
    by (simp only: main_scan dials_scan)
  show "sorted_wrt (<) [20..1024::int]"
    by (rule sorted_wrt_upto)
  show "stdout_of (trace (main dial)) =
      map printf_port_open (filter (is_open dial ''scanme.nmap.org'' Second) [20..1024])"
    by (simp only: main_scan stdout_of_scan)
  show "sorted_wrt (<) (filter (is_open dial ''scanme.nmap.org'' Second) [20..1024])"
    by (rule sorted_open_ports)
qed

theorem C3_witness:
  "dials (trace (main ssh_and_https)) =
     map (\<lambda>q. (''tcp'', sprintf_address ''scanme.nmap.org'' q, Second)) [20..1024] \<and>
   stdout_of (trace (main ssh_and_https)) = map printf_port_open [22, 443] \<and>
   sorted_wrt (<) [22, 443::int]"
proof -
  note c = C3_ascending_attempts_and_reports [of ssh_and_https]
  have "dials (trace (main ssh_and_https)) =
      map (\<lambda>q. (''tcp'', sprintf_address ''scanme.nmap.org'' q, Second)) [20..1024]"
    using c by (rule conjunct1)
  moreover have "stdout_of (trace (main ssh_and_https)) = map printf_port_open [22, 443]"
    using c [THEN conjunct2, THEN conjunct2, THEN conjunct1]
    by (simp only: open_ports_ssh_and_https)
  moreover have "sorted_wrt (<) [22, 443::int]"
    using c [THEN conjunct2, THEN conjunct2, THEN conjunct2]
    by (simp only: open_ports_ssh_and_https)
  ultimately show ?thesis by blast
qed

subsection \<open>C4: no port is reported twice\<close>

text \<open>
  Claim C4. In the output of a run no line occurs twice; since the line of a port is
  determined by the port, the line of any port \<open>p\<close> is written at most once in the
  whole run, and so is any text \<open>s\<close> whatever.
\<close>

theorem C4_port_reported_at_most_once:
  "distinct (stdout_of (trace (main dial))) \<and>
   count_list (trace (main dial)) (Stdout (printf_port_open p)) \<le> 1 \<and>
   count_list (stdout_of (trace (main dial))) s \<le> 1"
proof (intro conjI)
  show d: "distinct (stdout_of (trace (main dial)))"
    by (simp only: main_scan distinct_stdout_scan)
  show "count_list (trace (main dial)) (Stdout (printf_port_open p)) \<le> 1"
    by (simp add: main_scan count_report_scan)
  show "count_list (stdout_of (trace (main dial))) s \<le> 1"
    using d by (rule count_list_le_1)
qed

theorem C4_witness:
  "distinct (stdout_of (trace (main ssh_and_https))) \<and>
   count_list (trace (main ssh_and_https)) (Stdout (''Port 22 open'' @ [CHR 0x0A])) \<le> 1 \<and>
   count_list (stdout_of (trace (main ssh_and_https))) (''Port 443 open'' @ [CHR 0x0A]) \<le> 1"
  using C4_port_reported_at_most_once [of ssh_and_https 22 "''Port 443 open'' @ [CHR 0x0A]"]
  unfolding report_22 by blast

subsection \<open>C5: the range, the timeout, the line and when it is written\<close>

text \<open>
  Claim C5. The attempts of a run are exactly the ports 20..1024 of the target, each
  with a timeout of \<open>10\<^sup>9\<close> nanoseconds, that is one second. The output is, for each
  open port \<open>N\<close> among them, the text \<open>Port N open\<close> and a newline, with \<open>N\<close> in
  decimal. For an open port \<open>p\<close> that line is written once, and it is written right
  after the attempt on \<open>p\<close>, when only the ports 20..\<open>p\<close> have been attempted: the
  attempts on \<open>p + 1\<close>..1024 all come after it.
\<close>

theorem C5_range_timeout_and_streamed_lines:
  "dials (trace (main dial)) =
     map (\<lambda>q. (''tcp'', ''scanme.nmap.org'' @ '':'' @ fmt_d q, 1000000000)) [20..1024] \<and>
   stdout_of (trace (main dial)) =
     map (\<lambda>q. ''Port '' @ fmt_d q @ '' open'' @ [CHR 0x0A])
       (filter (is_open dial ''scanme.nmap.org'' 1000000000) [20..1024]) \<and>
   (20 \<le> p \<and> p \<le> 1024 \<and> is_open dial ''scanme.nmap.org'' 1000000000 p \<longrightarrow>
      count_list (stdout_of (trace (main dial))) (''Port '' @ fmt_d p @ '' open'' @ [CHR 0x0A]) = 1 \<and>
      (\<exists>c. trace (main dial) =
         trace (scan dial ''scanme.nmap.org'' 20 (p - 1) 1000000000) @
         [DialTimeout ''tcp'' (''scanme.nmap.org'' @ '':'' @ fmt_d p) 1000000000,
          Stdout (''Port '' @ fmt_d p @ '' open'' @ [CHR 0x0A]),
          Close c] @
         scan_loop dial ''scanme.nmap.org'' 1024 1000000000 (p + 1) []) \<and>
      dials (trace (scan dial ''scanme.nmap.org'' 20 (p - 1) 1000000000)) =
        map (\<lambda>q. (''tcp'', ''scanme.nmap.org'' @ '':'' @ fmt_d q, 1000000000)) [20..p - 1] \<and>
      dials (scan_loop dial ''scanme.nmap.org'' 1024 1000000000 (p + 1) []) =
        map (\<lambda>q. (''tcp'', ''scanme.nmap.org'' @ '':'' @ fmt_d q, 1000000000)) [p + 1..1024])"
proof -
  let ?T = "''scanme.nmap.org''"
  have S: "(1000000000::int) = Second"
    by (simp add: Second_def)
  have A: "(\<lambda>q. (''tcp'', ?T @ '':'' @ fmt_d q, Second)) =
           (\<lambda>q. (''tcp'', sprintf_address ?T q, Second))"
    by (simp add: sprintf_address_def)
  have P: "(\<lambda>q. ''Port '' @ fmt_d q @ '' open'' @ [CHR 0x0A]) = printf_port_open"
    by (simp add: printf_port_open_def fun_eq_iff)
  have 1: "dials (trace (main dial)) = map (\<lambda>q. (''tcp'', ?T @ '':'' @ fmt_d q, Second)) [20..1024]"
    by (simp only: A main_scan dials_scan)
  have 2: "stdout_of (trace (main dial)) =
      map (\<lambda>q. ''Port '' @ fmt_d q @ '' open'' @ [CHR 0x0A])
        (filter (is_open dial ?T Second) [20..1024])"
    by (simp only: P main_scan stdout_of_scan)
  have 3: "count_list (stdout_of (trace (main dial))) (''Port '' @ fmt_d p @ '' open'' @ [CHR 0x0A]) = 1"
    if "20 \<le> p" "p \<le> 1024" "is_open dial ?T Second p"
    using that count_stdout_scan [of dial ?T 20 1024 Second p]
    by (simp add: main_scan printf_port_open_def)
  have 4: "\<exists>c. trace (main dial) =
         trace (scan dial ?T 20 (p - 1) Second) @
         [DialTimeout ''tcp'' (?T @ '':'' @ fmt_d p) Second,
          Stdout (''Port '' @ fmt_d p @ '' open'' @ [CHR 0x0A]),
          Close c] @
         scan_loop dial ?T 1024 Second (p + 1) []"
    if "20 \<le> p" "p \<le> 1024" "is_open dial ?T Second p"
  proof -
    from that(3) obtain c where c: "dial ''tcp'' (sprintf_address ?T p) Second = Connected c"
      by (cases "dial ''tcp'' (sprintf_address ?T p) Second") (simp_all add: is_open_def)
    have "trace (main dial) =
        trace (scan dial ?T 20 (p - 1) Second) @
        [DialTimeout ''tcp'' (sprintf_address ?T p) Second,
         Stdout (printf_port_open p),
         Close c] @
        scan_loop dial ?T 1024 Second (p + 1) []"
      using scan_split [OF that(1,2), of dial ?T Second]
        scan_port_open [of dial ?T p Second c] c
      by (simp add: main_scan)
    then show ?thesis
      unfolding sprintf_address_def printf_port_open_def by (rule exI [where x = c])
  qed
  have 5: "dials (trace (scan dial ?T 20 (p - 1) Second)) =
      map (\<lambda>q. (''tcp'', ?T @ '':'' @ fmt_d q, Second)) [20..p - 1]"
    by (simp only: A dials_scan)
  have 6: "dials (scan_loop dial ?T 1024 Second (p + 1) []) =
      map (\<lambda>q. (''tcp'', ?T @ '':'' @ fmt_d q, Second)) [p + 1..1024]"
    by (simp only: A dials_rest)
  show ?thesis
    unfolding S
  proof (intro conjI impI)
    assume "20 \<le> p \<and> p \<le> 1024 \<and> is_open dial ?T Second p"
    then have *: "20 \<le> p" "p \<le> 1024" "is_open dial ?T Second p"
      by simp_all
    show "count_list (stdout_of (trace (main dial)))
        (''Port '' @ fmt_d p @ '' open'' @ [CHR 0x0A]) = 1"
      using * by (rule 3)
    show "\<exists>c. trace (main dial) =
         trace (scan dial ?T 20 (p - 1) Second) @
         [DialTimeout ''tcp'' (?T @ '':'' @ fmt_d p) Second,
          Stdout (''Port '' @ fmt_d p @ '' open'' @ [CHR 0x0A]),
          Close c] @
         scan_loop dial ?T 1024 Second (p + 1) []"
      using * by (rule 4)
  qed (rule 1 2 5 6)+
qed

theorem C5_witness:
  "(20::int) \<le> 22 \<and> (22::int) \<le> 1024 \<and>
   is_open ssh_and_https ''scanme.nmap.org'' 1000000000 22 \<and>
   stdout_of (trace (main ssh_and_https)) =
     [''Port 22 open'' @ [CHR 0x0A], ''Port 443 open'' @ [CHR 0x0A]] \<and>
   count_list (stdout_of (trace (main ssh_and_https))) (''Port 22 open'' @ [CHR 0x0A]) = 1 \<and>
   dials (scan_loop ssh_and_https ''scanme.nmap.org'' 1024 1000000000 23 []) =
     map (\<lambda>q. (''tcp'', ''scanme.nmap.org'' @ '':'' @ fmt_d q, 1000000000)) [23..1024]"
proof -
  have r: "(20::int) \<le> 22" "(22::int) \<le> 1024"
    by simp_all
  have o: "is_open ssh_and_https ''scanme.nmap.org'' 1000000000 22"
    by (simp add: is_open_ssh_and_https)
  have f: "''Port '' @ fmt_d 22 @ '' open'' @ [CHR 0x0A] = ''Port 22 open'' @ [CHR 0x0A]"
    using report_22 by (simp add: printf_port_open_def)
  have n: "(22::int) + 1 = 23"
    by simp
  have hyp: "(20::int) \<le> 22 \<and> (22::int) \<le> 1024 \<and>
      is_open ssh_and_https ''scanme.nmap.org'' 1000000000 22"
    using r o by (intro conjI)
  note c = C5_range_timeout_and_streamed_lines [of ssh_and_https 22,
      THEN conjunct2, THEN conjunct2, THEN mp, OF hyp]
  have once: "count_list (stdout_of (trace (main ssh_and_https)))
      (''Port 22 open'' @ [CHR 0x0A]) = 1"
    using c [THEN conjunct1] unfolding f .
  have later: "dials (scan_loop ssh_and_https ''scanme.nmap.org'' 1024 1000000000 23 []) =
      map (\<lambda>q. (''tcp'', ''scanme.nmap.org'' @ '':'' @ fmt_d q, 1000000000)) [23..1024]"
    using c [THEN conjunct2, THEN conjunct2, THEN conjunct2] unfolding n .
  show ?thesis
    using r o stdout_ssh_and_https once later by (intro conjI)
qed

subsection \<open>C6: a target whose name does not resolve\<close>

text \<open>
  Claim C6 says that when the target cannot be resolved the process ends with a non-zero
  status and a diagnostic. The program has no resolution step and no error path: with a
  network on which every attempt fails with \<open>NoSuchHost\<close>, it ends with status 0,
  writes nothing to standard error, and has made all 1005 attempts.
\<close>

theorem C6_counterexample:
  "unresolved_on no_such_host ''scanme.nmap.org'' Second [20..1024] \<and>
   exit_status (main no_such_host) = 0 \<and>
   \<not> list_ex is_diagnostic (trace (main no_such_host)) \<and>
   length (dials (trace (main no_such_host))) = 1005"
proof (intro conjI)
  show "unresolved_on no_such_host ''scanme.nmap.org'' Second [20..1024]"
    by (rule unresolved_on_no_such_host)
  show "exit_status (main no_such_host) = 0"
    by (rule exit_status_main)
  show "\<not> list_ex is_diagnostic (trace (main no_such_host))"
    by (simp only: main_scan no_diagnostic_scan not_False_eq_True)
  show "length (dials (trace (main no_such_host))) = 1005"
    by (simp add: main_scan length_dials_scan)
qed

text \<open>
  Claim C6, amended. If the name of the target does not resolve, so that every attempt
  on the ports 20..1024 fails with \<open>NoSuchHost\<close>, the run reports no open port; the
  failure is handled like any other failed attempt: the run consists of the 1005
  attempts and nothing else, nothing is written to standard output or standard error,
  and the process ends with status 0.
\<close>

theorem C6_unresolved_target_scanned_silently:
  assumes "unresolved_on dial ''scanme.nmap.org'' Second [20..1024]"
  shows "stdout_of (trace (main dial)) = [] \<and>
         trace (main dial) =
           map (\<lambda>p. DialTimeout ''tcp'' (sprintf_address ''scanme.nmap.org'' p) Second) [20..1024] \<and>
         \<not> list_ex is_diagnostic (trace (main dial)) \<and>
         exit_status (main dial) = 0"
proof (intro conjI)
  have closed: "\<not> is_open dial ''scanme.nmap.org'' Second p" if "20 \<le> p" "p \<le> 1024" for p
    using assms that by (rule unresolved_on_closed)
  show "stdout_of (trace (main dial)) = []"
    unfolding main_scan using closed by (rule stdout_all_closed)
  show "trace (main dial) =
      map (\<lambda>p. DialTimeout ''tcp'' (sprintf_address ''scanme.nmap.org'' p) Second) [20..1024]"
    unfolding main_scan using closed by (rule scan_all_closed)
  show "\<not> list_ex is_diagnostic (trace (main dial))"
    by (simp only: main_scan no_diagnostic_scan not_False_eq_True)
  show "exit_status (main dial) = 0"
    by (rule exit_status_main)
qed

theorem C6_witness:
  "unresolved_on no_such_host ''scanme.nmap.org'' Second [20..1024] \<and>
   stdout_of (trace (main no_such_host)) = [] \<and>
   trace (main no_such_host) =
     map (\<lambda>p. DialTimeout ''tcp'' (sprintf_address ''scanme.nmap.org'' p) Second) [20..1024] \<and>
   \<not> list_ex is_diagnostic (trace (main no_such_host)) \<and>
   exit_status (main no_such_host) = 0"
proof -
  have h: "unresolved_on no_such_host ''scanme.nmap.org'' Second [20..1024]"
    by (rule unresolved_on_no_such_host)
  from h C6_unresolved_target_scanned_silently [OF h] show ?thesis
    by (rule conjI)
qed

subsection \<open>C8: the scan ends\<close>

text \<open>
  Claim C8. The loop is a total function (its termination is proved with its
  definition: the distance from \<open>port\<close> to \<open>hi + 1\<close> decreases), so every run is a
  finite list of events. A run makes 1005 attempts, each with the timeout of one
  second, which is positive, 1005 seconds of timeout in all; it has two more events for
  each line written and at most 1005 lines; its last events are those of port 1024,
  and the loop entered with port 1025 does nothing more.
\<close>

theorem C8_scan_terminates_after_last_port:
  "length (dials (trace (main dial))) = 1005 \<and>
   map (snd \<circ> snd) (dials (trace (main dial))) = replicate 1005 Second \<and>
   0 < Second \<and>
   sum_list (map (snd \<circ> snd) (dials (trace (main dial)))) = 1005 * Second \<and>
   length (trace (main dial)) = 1005 + 2 * length (stdout_of (trace (main dial))) \<and>
   length (stdout_of (trace (main dial))) \<le> 1005 \<and>
   trace (main dial) =
     trace (scan dial ''scanme.nmap.org'' 20 1023 Second) @
     scan_port dial ''scanme.nmap.org'' Second 1024 [] \<and>
   scan_loop dial ''scanme.nmap.org'' 1024 Second 1025 tr = tr"
proof (intro conjI)
  show "length (dials (trace (main dial))) = 1005"
    by (simp add: main_scan length_dials_scan)
  show t: "map (snd \<circ> snd) (dials (trace (main dial))) = replicate 1005 Second"
    by (simp add: main_scan timeouts_scan)
  show "0 < Second"
    by (simp add: Second_def)
  show "sum_list (map (snd \<circ> snd) (dials (trace (main dial)))) = 1005 * Second"
    by (simp add: t sum_list_replicate)
  show "length (trace (main dial)) = 1005 + 2 * length (stdout_of (trace (main dial)))"
    using length_trace_scan [of dial "''scanme.nmap.org''" 20 1024 Second]
    by (simp add: main_scan)
  show "length (stdout_of (trace (main dial))) \<le> 1005"
    using length_stdout_scan [of dial "''scanme.nmap.org''" 20 1024 Second]
    by (simp add: main_scan)
  show "trace (main dial) =
      trace (scan dial ''scanme.nmap.org'' 20 1023 Second) @
      scan_port dial ''scanme.nmap.org'' Second 1024 []"
    using scan_last [of 20 1024 dial "''scanme.nmap.org''" Second]
    by (simp add: main_scan)
  show "scan_loop dial ''scanme.nmap.org'' 1024 Second 1025 tr = tr"
    by (rule loop_exit) simp
qed

theorem C8_witness:
  "length (dials (trace (main ssh_and_https))) = 1005 \<and>
   length (trace (main ssh_and_https)) = 1009 \<and>
   sum_list (map (snd \<circ> snd) (dials (trace (main ssh_and_https)))) = 1005000000000"
proof -
  note c = C8_scan_terminates_after_last_port [of ssh_and_https]
  have "length (dials (trace (main ssh_and_https))) = 1005"
    using c by (rule conjunct1)
  moreover have "length (trace (main ssh_and_https)) = 1009"
    using c [THEN conjunct2, THEN conjunct2, THEN conjunct2, THEN conjunct2, THEN conjunct1]
    by (simp add: stdout_ssh_and_https)
  moreover have "sum_list (map (snd \<circ> snd) (dials (trace (main ssh_and_https)))) = 1005000000000"
    using c [THEN conjunct2, THEN conjunct2, THEN conjunct2, THEN conjunct1]
    by (simp add: Second_def)
  ultimately show ?thesis
    by (intro conjI)
qed

subsection \<open>C9: the same outcomes give the same open ports\<close>

text \<open>
  Claim C9. A run depends on the world only through the results of its attempts, and
  the program keeps nothing from one run to the next. If in two runs every port of
  20..1024 is open in both or in neither (the connections and the errors may differ),
  the two runs write the same lines, in the same order, so the same set of open ports.
\<close>

theorem C9_same_outcomes_same_open_ports:
  assumes "list_all (\<lambda>p. is_open d1 ''scanme.nmap.org'' Second p =
                         is_open d2 ''scanme.nmap.org'' Second p) [20..1024]"
  shows "set (stdout_of (trace (main d1))) = set (stdout_of (trace (main d2))) \<and>
         stdout_of (trace (main d1)) = stdout_of (trace (main d2)) \<and>
         filter (is_open d1 ''scanme.nmap.org'' Second) [20..1024] =
           filter (is_open d2 ''scanme.nmap.org'' Second) [20..1024]"
proof -
  have same: "is_open d1 ''scanme.nmap.org'' Second q = is_open d2 ''scanme.nmap.org'' Second q"
    if "20 \<le> q" "q \<le> 1024" for q
    using assms that by (simp add: list_all_iff del: upto_rec_numeral)
  have "stdout_of (trace (main d1)) = stdout_of (trace (main d2))"
    unfolding main_scan using same by (rule stdout_same)
  moreover have "filter (is_open d1 ''scanme.nmap.org'' Second) [20..1024] =
      filter (is_open d2 ''scanme.nmap.org'' Second) [20..1024]"
    using same by (intro filter_cong [OF refl]) (simp del: upto_rec_numeral)
  ultimately show ?thesis
    by (simp del: upto_rec_numeral)
qed

theorem C9_witness:
  "list_all (\<lambda>p. is_open ssh_and_https ''scanme.nmap.org'' Second p =
                 is_open ssh_and_https_filtered ''scanme.nmap.org'' Second p) [20..1024] \<and>
   ssh_and_https ''tcp'' ''scanme.nmap.org:443'' Second \<noteq>
     ssh_and_https_filtered ''tcp'' ''scanme.nmap.org:443'' Second \<and>
   set (stdout_of (trace (main ssh_and_https))) =
     set (stdout_of (trace (main ssh_and_https_filtered))) \<and>
   stdout_of (trace (main ssh_and_https_filtered)) =
     [''Port 22 open'' @ [CHR 0x0A], ''Port 443 open'' @ [CHR 0x0A]]"
proof -
  have h: "list_all (\<lambda>p. is_open ssh_and_https ''scanme.nmap.org'' Second p =
      is_open ssh_and_https_filtered ''scanme.nmap.org'' Second p) [20..1024]"
    by (simp add: list_all_iff is_open_ssh_and_https is_open_ssh_and_https_filtered
        del: upto_rec_numeral)
  note c = C9_same_outcomes_same_open_ports [OF h]
  have d: "ssh_and_https ''tcp'' ''scanme.nmap.org:443'' Second \<noteq>
      ssh_and_https_filtered ''tcp'' ''scanme.nmap.org:443'' Second"
    by (simp add: ssh_and_https_def ssh_and_https_filtered_def)
  have "stdout_of (trace (main ssh_and_https_filtered)) =
      [''Port 22 open'' @ [CHR 0x0A], ''Port 443 open'' @ [CHR 0x0A]]"
    using c [THEN conjunct2, THEN conjunct1] stdout_ssh_and_https by simp
  with h d c [THEN conjunct1] show ?thesis
    by (intro conjI)
qed

subsection \<open>C10: one attempt per port, then status 0\<close>

text \<open>
  Claim C10. Whatever the attempts return, a run makes exactly the attempts on the
  ports 20, ..., 1024 of the target, in this order: 1005 attempts, no address twice,
  and then the process ends with status 0. When no port of the range is open the run
  writes nothing: it consists of the 1005 attempts alone.
\<close>

theorem C10_one_attempt_per_port_then_exit_0:
  "dials (trace (main dial)) =
     map (\<lambda>q. (''tcp'', sprintf_address ''scanme.nmap.org'' q, Second)) [20..1024] \<and>
   length (dials (trace (main dial))) = 1005 \<and>
   distinct (dials (trace (main dial))) \<and>
   exit_status (main dial) = 0 \<and>
   (\<not> list_ex (is_open dial ''scanme.nmap.org'' Second) [20..1024] \<longrightarrow>
      stdout_of (trace (main dial)) = [] \<and>
      trace (main dial) =
        map (\<lambda>q. DialTimeout ''tcp'' (sprintf_address ''scanme.nmap.org'' q) Second) [20..1024])"
proof (intro conjI impI)
  show "dials (trace (main dial)) =
      map (\<lambda>q. (''tcp'', sprintf_address ''scanme.nmap.org'' q, Second)) [20..1024]"
    by (simp only: main_scan dials_scan)
  show "length (dials (trace (main dial))) = 1005"
    by (simp add: main_scan length_dials_scan)
  show "distinct (dials (trace (main dial)))"
    by (simp only: main_scan dials_scan distinct_addresses)
  show "exit_status (main dial) = 0"
    by (rule exit_status_main)
next
  assume "\<not> list_ex (is_open dial ''scanme.nmap.org'' Second) [20..1024]"
  then have closed: "\<not> is_open dial ''scanme.nmap.org'' Second q" if "20 \<le> q" "q \<le> 1024" for q
    using that by (simp add: list_ex_iff del: upto_rec_numeral)
  show "stdout_of (trace (main dial)) = []"
    unfolding main_scan using closed by (rule stdout_all_closed)
  show "trace (main dial) =
      map (\<lambda>q. DialTimeout ''tcp'' (sprintf_address ''scanme.nmap.org'' q) Second) [20..1024]"
    unfolding main_scan using closed by (rule scan_all_closed)
qed

theorem C10_witness:
  "\<not> list_ex (is_open refuse_all ''scanme.nmap.org'' Second) [20..1024] \<and>
   stdout_of (trace (main refuse_all)) = [] \<and>
   trace (main refuse_all) =
     map (\<lambda>q. DialTimeout ''tcp'' (sprintf_address ''scanme.nmap.org'' q) Second) [20..1024] \<and>
   length (dials (trace (main refuse_all))) = 1005 \<and>
   exit_status (main refuse_all) = 0"
proof -
  have h: "\<not> list_ex (is_open refuse_all ''scanme.nmap.org'' Second) [20..1024]"
    by (simp add: list_ex_iff is_open_refuse_all del: upto_rec_numeral)
  note c = C10_one_attempt_per_port_then_exit_0 [of refuse_all]
  note q = c [THEN conjunct2, THEN conjunct2, THEN conjunct2, THEN conjunct2, THEN mp, OF h]
  from h q [THEN conjunct1] q [THEN conjunct2]
    c [THEN conjunct2, THEN conjunct1]
    c [THEN conjunct2, THEN conjunct2, THEN conjunct2, THEN conjunct1]
  show ?thesis
    by (intro conjI)
qed

end
